theory Spec2Isabelle
  imports Main
begin

section \<open>Data model\<close>

text \<open>
  The rows of the Prisma tables the admission path and the email worker touch, with
  the columns the source reads or writes. Identifiers are the uuid strings of the
  schema, instants are milliseconds since the epoch, an optional column
  (\<^verbatim>\<open>String?\<close>, \<^verbatim>\<open>DateTime?\<close>) is an \<open>option\<close>. A table is the list of its rows in
  insertion order. The \<^verbatim>\<open>jobId\<close> of a mail box row is the job's id (the source stores
  its \<^verbatim>\<open>toString()\<close>).
\<close>

type_synonym ident = string
type_synonym instant = int

record user =
  u_id :: ident
  u_name :: string
  u_email :: string

record competition =
  c_id :: ident
  c_title :: string
  c_capacity :: int
  c_regDeadline :: instant
  c_startDate :: "instant option"
  c_deletedAt :: "instant option"

record registration =
  r_id :: ident
  r_userId :: ident
  r_competitionId :: ident
  r_idempotencyKey :: "string option"
  r_registeredAt :: instant
  r_deletedAt :: "instant option"

datatype emailType = Confirmation | Reminder

text \<open>The interface \<^verbatim>\<open>EmailJob\<close> of queue.processor.ts.\<close>

record emailJob =
  registrationId :: ident
  userId :: ident
  competitionId :: ident
  type :: emailType

record mailBox =
  m_id :: ident
  m_userId :: ident
  m_to :: string
  m_subject :: string
  m_body :: string
  m_sentAt :: instant
  m_jobId :: "nat option"

record failedJob =
  f_id :: ident
  f_jobName :: string
  f_jobData :: emailJob
  f_error :: string
  f_attempts :: nat
  f_failedAt :: instant

record store =
  users :: "user list"
  competitions :: "competition list"
  registrations :: "registration list"
  mailBoxes :: "mailBox list"
  failedJobs :: "failedJob list"

text \<open>
  The values the database fills in for a new row: \<^verbatim>\<open>@default(uuid())\<close> and
  \<^verbatim>\<open>@default(now())\<close>.
\<close>

record gen =
  uuid :: ident
  dbNow :: instant

text \<open>
  The exceptions \<^verbatim>\<open>register\<close> can end with: the three Nest exceptions it throws itself,
  each with its message, and the error of a Prisma call that violates a constraint
  (with Prisma's error code).
\<close>

datatype error =
    NotFoundException string
  | BadRequestException string
  | ConflictException string
  | PrismaClientKnownRequestError string

text \<open>The spec's names for the four admission errors.\<close>

definition NotFound :: error where
  "NotFound = NotFoundException ''Competition not found''"

definition DeadlineExceeded :: error where
  "DeadlineExceeded = BadRequestException ''Registration deadline has passed''"

definition CapacityExceeded :: error where
  "CapacityExceeded = ConflictException ''Competition is full''"

definition AlreadyRegistered :: error where
  "AlreadyRegistered = ConflictException ''Already registered for this competition''"

section \<open>The queue as the services see it\<close>

text \<open>
  The options object passed to \<^verbatim>\<open>emailQueue.add\<close>; \<^verbatim>\<open>removeOnComplete\<close> and
  \<^verbatim>\<open>removeOnFail\<close> are absent from the reminder's options.
\<close>

record jobOptions =
  attempts :: nat
  backoff_type :: string
  backoff_delay :: nat
  removeOnComplete :: "bool option"
  removeOnFail :: "bool option"

text \<open>
  A Bull \<^verbatim>\<open>Job\<close>, with the fields the source reads: \<^verbatim>\<open>id\<close> (optional, a number),
  \<^verbatim>\<open>data\<close> and \<^verbatim>\<open>attemptsMade\<close>, and the name and options it was added with.
\<close>

record job =
  job_id :: "nat option"
  job_name :: string
  job_data :: emailJob
  job_opts :: jobOptions
  attemptsMade :: nat

text \<open>
  \<^verbatim>\<open>emailQueue\<close> is injected into \<^verbatim>\<open>QueueService\<close>; its \<^verbatim>\<open>add\<close> is a parameter of
  the model. It takes the job name, the payload, the options and the queue's state, and
  returns the queue's new state with either the job or the message of the error it
  rejects with.
\<close>

type_synonym 'q enqueue =
  "string \<Rightarrow> emailJob \<Rightarrow> jobOptions \<Rightarrow> 'q \<Rightarrow> (string + job) \<times> 'q"

text \<open>\<^verbatim>\<open>QueueService.addConfirmationEmail\<close> (the log line is not modelled).\<close>

definition addConfirmationEmail ::
  "'q enqueue \<Rightarrow> ident \<Rightarrow> ident \<Rightarrow> ident \<Rightarrow> 'q \<Rightarrow> (string + job) \<times> 'q" where
  "addConfirmationEmail add rid uid cid q =
     add ''sendConfirmation''
       \<lparr>registrationId = rid, userId = uid, competitionId = cid, type = Confirmation\<rparr>
       \<lparr>attempts = 3, backoff_type = ''exponential'', backoff_delay = 2000,
        removeOnComplete = Some True, removeOnFail = Some False\<rparr>
       q"

text \<open>\<^verbatim>\<open>QueueService.addReminderEmail\<close>.\<close>

definition addReminderEmail ::
  "'q enqueue \<Rightarrow> ident \<Rightarrow> ident \<Rightarrow> ident \<Rightarrow> 'q \<Rightarrow> (string + job) \<times> 'q" where
  "addReminderEmail add rid uid cid q =
     add ''sendReminder''
       \<lparr>registrationId = rid, userId = uid, competitionId = cid, type = Reminder\<rparr>
       \<lparr>attempts = 3, backoff_type = ''exponential'', backoff_delay = 2000,
        removeOnComplete = None, removeOnFail = None\<rparr>
       q"

section \<open>The Prisma calls of the admission path\<close>

text \<open>\<^verbatim>\<open>competition.findUnique({ where: { id } })\<close>.\<close>

definition competition_findUnique :: "store \<Rightarrow> ident \<Rightarrow> competition option" where
  "competition_findUnique db cid = find (\<lambda>c. c_id c = cid) (competitions db)"

text \<open>\<^verbatim>\<open>user.findUnique({ where: { id } })\<close>, used for the \<^verbatim>\<open>user\<close> relation.\<close>

definition user_findUnique :: "store \<Rightarrow> ident \<Rightarrow> user option" where
  "user_findUnique db uid = find (\<lambda>u. u_id u = uid) (users db)"

text \<open>
  \<^verbatim>\<open>_count: { select: { registrations: true } }\<close>: every registration row of the
  competition is counted.
\<close>

definition count_registrations :: "store \<Rightarrow> ident \<Rightarrow> nat" where
  "count_registrations db cid =
     length (filter (\<lambda>r. r_competitionId r = cid) (registrations db))"

text \<open>\<^verbatim>\<open>registration.findUnique({ where: { idempotencyKey } })\<close>.\<close>

definition registration_findUnique_idempotencyKey ::
  "store \<Rightarrow> string \<Rightarrow> registration option" where
  "registration_findUnique_idempotencyKey db k =
     find (\<lambda>r. r_idempotencyKey r = Some k) (registrations db)"

text \<open>\<^verbatim>\<open>registration.findUnique({ where: { userId_competitionId: { ... } } })\<close>.\<close>

definition registration_findUnique_userId_competitionId ::
  "store \<Rightarrow> ident \<Rightarrow> ident \<Rightarrow> registration option" where
  "registration_findUnique_userId_competitionId db uid cid =
     find (\<lambda>r. r_userId r = uid \<and> r_competitionId r = cid) (registrations db)"

text \<open>
  What \<^verbatim>\<open>register\<close> returns: a registration row, and the relations the query
  included. The idempotency lookup includes none; \<^verbatim>\<open>registration.create\<close> includes
  the competition and the user (\<^verbatim>\<open>select: { id, name, email }\<close>).
\<close>

record registerResult =
  rr_row :: registration
  rr_competition :: "competition option"
  rr_user :: "user option"

text \<open>
  \<^verbatim>\<open>registration.create\<close>. The table's constraints are those the queries of the source
  rely on: the primary key, \<^verbatim>\<open>@@unique([userId, competitionId])\<close>,
  \<^verbatim>\<open>idempotencyKey String? @unique\<close> (null keys never collide) and the two foreign
  keys. A violated unique constraint is Prisma's P2002, a violated foreign key P2003.
  An \<^verbatim>\<open>undefined\<close> key is stored as null, any string (the empty one too) as itself.
\<close>

definition registration_create ::
  "gen \<Rightarrow> store \<Rightarrow> ident \<Rightarrow> ident \<Rightarrow> string option \<Rightarrow> error + (registerResult \<times> store)" where
  "registration_create g db uid cid key =
     (if list_ex (\<lambda>r. r_id r = uuid g
                    \<or> (r_userId r = uid \<and> r_competitionId r = cid)
                    \<or> (key \<noteq> None \<and> r_idempotencyKey r = key)) (registrations db)
      then Inl (PrismaClientKnownRequestError ''P2002'')
      else
        (case (competition_findUnique db cid, user_findUnique db uid) of
           (Some c, Some u) \<Rightarrow>
             (let row = \<lparr>r_id = uuid g, r_userId = uid, r_competitionId = cid,
                         r_idempotencyKey = key, r_registeredAt = dbNow g,
                         r_deletedAt = None\<rparr>
              in Inr (\<lparr>rr_row = row, rr_competition = Some c, rr_user = Some u\<rparr>,
                      db\<lparr>registrations := registrations db @ [row]\<rparr>))
         | _ \<Rightarrow> Inl (PrismaClientKnownRequestError ''P2003'')))"

section \<open>CompetitionsService.register\<close>

text \<open>
  The idempotency check at the head of \<^verbatim>\<open>register\<close>. \<^verbatim>\<open>if (idempotencyKey)\<close> is
  JavaScript truthiness: \<^verbatim>\<open>undefined\<close> and the empty string both skip the lookup.
\<close>

definition idempotencyLookup :: "store \<Rightarrow> string option \<Rightarrow> registration option" where
  "idempotencyLookup db key =
     (case key of
        None \<Rightarrow> None
      | Some k \<Rightarrow> if k = [] then None else registration_findUnique_idempotencyKey db k)"

text \<open>
  The callback of \<^verbatim>\<open>prisma.$transaction\<close>, run as one atomic unit: it either throws
  and leaves the store as it was, or returns the created registration and the store
  with the new row. \<open>now\<close> is \<^verbatim>\<open>new Date()\<close>.
\<close>

definition registerTx ::
  "instant \<Rightarrow> gen \<Rightarrow> store \<Rightarrow> ident \<Rightarrow> ident \<Rightarrow> string option
     \<Rightarrow> error + (registerResult \<times> store)" where
  "registerTx now g db cid uid key =
     (case competition_findUnique db cid of
        None \<Rightarrow> Inl (NotFoundException ''Competition not found'')
      | Some c \<Rightarrow>
          if c_deletedAt c \<noteq> None then Inl (NotFoundException ''Competition not found'')
          else if now > c_regDeadline c
            then Inl (BadRequestException ''Registration deadline has passed'')
          else if int (count_registrations db cid) \<ge> c_capacity c
            then Inl (ConflictException ''Competition is full'')
          else
            (case registration_findUnique_userId_competitionId db uid cid of
               Some existingReg \<Rightarrow>
                 Inl (ConflictException ''Already registered for this competition'')
             | None \<Rightarrow> registration_create g db uid cid key))"

text \<open>
  The same callback with its three awaited store calls told apart: the read of the
  competition and its registration count sees the store \<open>s1\<close>, the read of the
  (user, competition) pair sees \<open>s2\<close>, and \<^verbatim>\<open>registration.create\<close> is applied to
  \<open>s3\<close>. \<^verbatim>\<open>$transaction\<close> is called without an isolation level and the reads are plain
  \<^verbatim>\<open>findUnique\<close> calls that take no lock, so the commit of another call's transaction
  can fall between two of the calls; then \<open>s1\<close>, \<open>s2\<close> and \<open>s3\<close> differ. The
  constraints of the table are checked by \<^verbatim>\<open>create\<close> against \<open>s3\<close>.
\<close>

definition registerTx_interleaved ::
  "instant \<Rightarrow> gen \<Rightarrow> store \<Rightarrow> store \<Rightarrow> store \<Rightarrow> ident \<Rightarrow> ident \<Rightarrow> string option
     \<Rightarrow> error + (registerResult \<times> store)" where
  "registerTx_interleaved now g s1 s2 s3 cid uid key =
     (case competition_findUnique s1 cid of
        None \<Rightarrow> Inl (NotFoundException ''Competition not found'')
      | Some c \<Rightarrow>
          if c_deletedAt c \<noteq> None then Inl (NotFoundException ''Competition not found'')
          else if now > c_regDeadline c
            then Inl (BadRequestException ''Registration deadline has passed'')
          else if int (count_registrations s1 cid) \<ge> c_capacity c
            then Inl (ConflictException ''Competition is full'')
          else
            (case registration_findUnique_userId_competitionId s2 uid cid of
               Some existingReg \<Rightarrow>
                 Inl (ConflictException ''Already registered for this competition'')
             | None \<Rightarrow> registration_create g s3 uid cid key))"

text \<open>
  \<^verbatim>\<open>register(competitionId, userId, idempotencyKey?)\<close>. The result is what the call
  returns or throws, with the store and the queue as the call leaves them. An error
  of \<^verbatim>\<open>addConfirmationEmail\<close> is caught and logged; the registration is returned all
  the same.
\<close>

definition register ::
  "'q enqueue \<Rightarrow> instant \<Rightarrow> gen \<Rightarrow> store \<Rightarrow> 'q \<Rightarrow> ident \<Rightarrow> ident \<Rightarrow> string option
     \<Rightarrow> (error + registerResult) \<times> store \<times> 'q" where
  "register add now g db q cid uid key =
     (case idempotencyLookup db key of
        Some existing \<Rightarrow>
          (Inr \<lparr>rr_row = existing, rr_competition = None, rr_user = None\<rparr>, db, q)
      | None \<Rightarrow>
          (case registerTx now g db cid uid key of
             Inl e \<Rightarrow> (Inl e, db, q)
           | Inr (registration, db') \<Rightarrow>
               (case addConfirmationEmail add (r_id (rr_row registration)) uid cid q of
                  (Inl err, q') \<Rightarrow> (Inr registration, db', q')
                | (Inr j, q') \<Rightarrow> (Inr registration, db', q'))))"

section \<open>QueueProcessor.handleConfirmation\<close>

text \<open>
  What one run of the handler gets from outside: the values the database generates
  for the row the run creates, and whether \<^verbatim>\<open>prisma.mailBox.create\<close> rejects
  (\<open>Some msg\<close>: it rejects with message \<open>msg\<close>, a storage fault).
\<close>

record attemptEnv =
  a_gen :: gen
  a_mailFault :: "string option"

text \<open>\<^verbatim>\<open>registration.findUnique({ where: { id } })\<close>.\<close>

definition registration_findUnique :: "store \<Rightarrow> ident \<Rightarrow> registration option" where
  "registration_findUnique db rid = find (\<lambda>r. r_id r = rid) (registrations db)"

text \<open>
  \<^verbatim>\<open>mailBox.create\<close>: the row is appended unless the call rejects, its id is taken
  (P2002) or its user does not exist (P2003). The message of a Prisma error is
  represented by its code.
\<close>

definition mailBox_create :: "attemptEnv \<Rightarrow> store \<Rightarrow> mailBox \<Rightarrow> string + store" where
  "mailBox_create e db row =
     (case a_mailFault e of
        Some msg \<Rightarrow> Inl msg
      | None \<Rightarrow>
          if list_ex (\<lambda>m. m_id m = m_id row) (mailBoxes db) then Inl ''P2002''
          else if user_findUnique db (m_userId row) = None then Inl ''P2003''
          else Inr (db\<lparr>mailBoxes := mailBoxes db @ [row]\<rparr>))"

text \<open>\<^verbatim>\<open>failedJob.create\<close>.\<close>

definition failedJob_create :: "store \<Rightarrow> failedJob \<Rightarrow> string + store" where
  "failedJob_create db row =
     (if list_ex (\<lambda>f. f_id f = f_id row) (failedJobs db) then Inl ''P2002''
      else Inr (db\<lparr>failedJobs := failedJobs db @ [row]\<rparr>))"

definition newline :: char where
  "newline = CHR 0x0A"

text \<open>
  The \<^verbatim>\<open>try\<close> block of \<^verbatim>\<open>handleConfirmation\<close>: the message of the error it throws, or
  the store after the mail box row is written. The registration is read with its
  user and its competition; reading \<^verbatim>\<open>.email\<close> or \<^verbatim>\<open>.title\<close> of a relation that is
  missing is a TypeError (its message is given without the quotation marks). Of the
  store calls, only \<^verbatim>\<open>mailBox.create\<close> is given a way to reject for a reason outside
  the store.
\<close>

definition confirmationBody :: "attemptEnv \<Rightarrow> store \<Rightarrow> job \<Rightarrow> string + store" where
  "confirmationBody e db j =
     (case registration_findUnique db (registrationId (job_data j)) of
        None \<Rightarrow> Inl ''Registration not found''
      | Some registration \<Rightarrow>
          (case user_findUnique db (r_userId registration) of
             None \<Rightarrow> Inl ''Cannot read properties of null (reading email)''
           | Some u \<Rightarrow>
               (case competition_findUnique db (r_competitionId registration) of
                  None \<Rightarrow> Inl ''Cannot read properties of null (reading title)''
                | Some c \<Rightarrow>
                    mailBox_create e db
                      \<lparr>m_id = uuid (a_gen e),
                       m_userId = userId (job_data j),
                       m_to = u_email u,
                       m_subject = ''Registration Confirmed: '' @ c_title c,
                       m_body = ''Dear '' @ u_name u @ '','' @ [newline, newline]
                         @ ''You have successfully registered for '' @ c_title c @ ''.''
                         @ [newline, newline] @ ''Best regards,'' @ [newline]
                         @ ''Mini Compete Team'',
                       m_sentAt = dbNow (a_gen e),
                       m_jobId = job_id j\<rparr>)))"

text \<open>
  \<^verbatim>\<open>handleConfirmation(job)\<close>: \<open>Inr True\<close> is the return of \<^verbatim>\<open>{ success: true }\<close>,
  \<open>Inl msg\<close> the error rethrown by the \<^verbatim>\<open>catch\<close> block after it has written the
  FailedJob row (or the error of that write, when it rejects).
\<close>

definition handleConfirmation :: "attemptEnv \<Rightarrow> store \<Rightarrow> job \<Rightarrow> (string + bool) \<times> store" where
  "handleConfirmation e db j =
     (case confirmationBody e db j of
        Inr db' \<Rightarrow> (Inr True, db')
      | Inl msg \<Rightarrow>
          (case failedJob_create db
                  \<lparr>f_id = uuid (a_gen e), f_jobName = ''sendConfirmation'',
                   f_jobData = job_data j, f_error = msg,
                   f_attempts = attemptsMade j, f_failedAt = dbNow (a_gen e)\<rparr> of
             Inl msg' \<Rightarrow> (Inl msg', db)
           | Inr db' \<Rightarrow> (Inl msg, db')))"

section \<open>Work queue and worker pool\<close>

text \<open>
  Modelled from the spec: the Work Queue of section 4.3 (the Bull library behind
  \<^verbatim>\<open>emailQueue\<close> is an external dependency, not part of the sources). \<open>enqueue\<close>
  persists the task and returns it with a fresh task id; the task starts with an
  attempt counter of 0.
\<close>

record workQueue =
  wq_jobs :: "job list"
  wq_counter :: nat

definition wq_add :: "workQueue enqueue" where
  "wq_add name d opts q =
     (Inr \<lparr>job_id = Some (wq_counter q), job_name = name, job_data = d,
           job_opts = opts, attemptsMade = 0\<rparr>,
      q\<lparr>wq_jobs := wq_jobs q @
            [\<lparr>job_id = Some (wq_counter q), job_name = name, job_data = d,
              job_opts = opts, attemptsMade = 0\<rparr>],
        wq_counter := Suc (wq_counter q)\<rparr>)"

datatype taskState = Queued | Removed_on_success | Removed_on_failure

record taskRun =
  t_store :: store
  t_job :: job
  t_delays :: "nat list"
  t_executions :: nat
  t_state :: taskState

text \<open>
  Modelled from the spec: the Worker Pool's treatment of one Confirmation task
  (section 4.4; the loop that calls the handler is Bull's, not part of the sources).
  Each element of the list is the environment of one execution of the handler, which
  sees in \<^verbatim>\<open>job.attemptsMade\<close> the attempts that failed before it. On success the
  task is removed.
  On failure the attempt counter is incremented; below \<open>maxAttempts\<close> the task is
  rescheduled with delay \<open>backoffBase * 2 ^ (attempts - 1)\<close> and stays queued,
  otherwise it is removed for good. The Dead Letter write is not repeated here: in
  the source it is the \<^verbatim>\<open>failedJob.create\<close> of the handler's \<^verbatim>\<open>catch\<close> block.
\<close>

fun runTask :: "attemptEnv list \<Rightarrow> taskRun \<Rightarrow> taskRun" where
  "runTask [] t = t"
| "runTask (e # es) t =
     (if t_state t \<noteq> Queued then t
      else
        (case handleConfirmation e (t_store t) (t_job t) of
           (Inr ok, db') \<Rightarrow>
             t\<lparr>t_store := db', t_executions := Suc (t_executions t),
               t_state := Removed_on_success\<rparr>
         | (Inl err, db') \<Rightarrow>
             (let n = Suc (attemptsMade (t_job t)) in
              if n < attempts (job_opts (t_job t))
              then runTask es
                     (t\<lparr>t_store := db',
                        t_job := (t_job t)\<lparr>attemptsMade := n\<rparr>,
                        t_delays := t_delays t @
                          [backoff_delay (job_opts (t_job t)) * 2 ^ (n - 1)],
                        t_executions := Suc (t_executions t)\<rparr>)
              else t\<lparr>t_store := db',
                     t_job := (t_job t)\<lparr>attemptsMade := n\<rparr>,
                     t_executions := Suc (t_executions t),
                     t_state := Removed_on_failure\<rparr>)))"

definition startTask :: "store \<Rightarrow> job \<Rightarrow> taskRun" where
  "startTask db j =
     \<lparr>t_store = db, t_job = j, t_delays = [], t_executions = 0, t_state = Queued\<rparr>"

section \<open>Scheduler\<close>

text \<open>
  Modelled from the spec: the Scheduler of section 4.5 (cron/cron.service.ts is
  missing from the sources; only \<^verbatim>\<open>addReminderEmail\<close>, which it calls, is there).
  A run at \<open>now\<close> takes the
  competitions whose start time lies in \<open>[now + lookahead, now + lookahead + delta)\<close>
  and enqueues one Reminder task for every active registration (one not
  soft-deleted) of each of them.
\<close>

definition startsInWindow :: "instant \<Rightarrow> int \<Rightarrow> int \<Rightarrow> competition \<Rightarrow> bool" where
  "startsInWindow now lookahead delta c =
     (case c_startDate c of
        None \<Rightarrow> False
      | Some s \<Rightarrow> now + lookahead \<le> s \<and> s < now + lookahead + delta)"

definition activeRegistrations :: "store \<Rightarrow> competition \<Rightarrow> registration list" where
  "activeRegistrations db c =
     filter (\<lambda>r. r_competitionId r = c_id c \<and> r_deletedAt r = None) (registrations db)"

definition dueRegistrations :: "instant \<Rightarrow> int \<Rightarrow> int \<Rightarrow> store \<Rightarrow> registration list" where
  "dueRegistrations now lookahead delta db =
     concat (map (activeRegistrations db)
               (filter (startsInWindow now lookahead delta) (competitions db)))"

definition sendReminders :: "instant \<Rightarrow> int \<Rightarrow> int \<Rightarrow> store \<Rightarrow> workQueue \<Rightarrow> workQueue" where
  "sendReminders now lookahead delta db q =
     fold (\<lambda>r q'. snd (addReminderEmail wq_add (r_id r) (r_userId r) (r_competitionId r) q'))
       (dueRegistrations now lookahead delta db) q"

text \<open>
  The tasks a producer added to the queue, and the wire payload of the Reminder task
  of a registration (section 6 of the spec).
\<close>

definition newJobs :: "workQueue \<Rightarrow> workQueue \<Rightarrow> job list" where
  "newJobs q q' = drop (length (wq_jobs q)) (wq_jobs q')"

definition reminderPayload :: "registration \<Rightarrow> emailJob" where
  "reminderPayload r =
     \<lparr>registrationId = r_id r, userId = r_userId r, competitionId = r_competitionId r,
      type = Reminder\<rparr>"

section \<open>Store invariants\<close>

text \<open>The unique constraints of the Registration table, as predicates on a store.\<close>

definition pairsDistinct :: "store \<Rightarrow> bool" where
  "pairsDistinct db =
     distinct (map (\<lambda>r. (r_userId r, r_competitionId r)) (registrations db))"

definition keysDistinct :: "store \<Rightarrow> bool" where
  "keysDistinct db = distinct (List.map_filter r_idempotencyKey (registrations db))"

section \<open>Test data\<close>

definition alice :: user where
  "alice = \<lparr>u_id = ''u1'', u_name = ''Alice'', u_email = ''a@x''\<rparr>"

definition bob :: user where
  "bob = \<lparr>u_id = ''u2'', u_name = ''Bob'', u_email = ''b@x''\<rparr>"

text \<open>A competition with one place and one with two; registration closes at 1000.\<close>

definition comp1 :: competition where
  "comp1 = \<lparr>c_id = ''c1'', c_title = ''Cup'', c_capacity = 1, c_regDeadline = 1000,
             c_startDate = None, c_deletedAt = None\<rparr>"

definition comp2 :: competition where
  "comp2 = \<lparr>c_id = ''c2'', c_title = ''Open'', c_capacity = 2, c_regDeadline = 1000,
             c_startDate = None, c_deletedAt = None\<rparr>"

definition db0 :: store where
  "db0 = \<lparr>users = [alice, bob], competitions = [comp1, comp2], registrations = [],
           mailBoxes = [], failedJobs = []\<rparr>"

definition reg1 :: registration where
  "reg1 = \<lparr>r_id = ''r1'', r_userId = ''u1'', r_competitionId = ''c1'',
            r_idempotencyKey = Some ''k1'', r_registeredAt = 500, r_deletedAt = None\<rparr>"

text \<open>The store after Alice's admission to the first competition with key k1.\<close>

definition db1 :: store where
  "db1 = db0\<lparr>registrations := [reg1]\<rparr>"

definition gen1 :: gen where
  "gen1 = \<lparr>uuid = ''r1'', dbNow = 500\<rparr>"

definition gen2 :: gen where
  "gen2 = \<lparr>uuid = ''r2'', dbNow = 600\<rparr>"

text \<open>The first competition soft-deleted; Alice holding one of the two places of the second.\<close>

definition db_deleted :: store where
  "db_deleted = db0\<lparr>competitions := [comp1\<lparr>c_deletedAt := Some 100\<rparr>]\<rparr>"

definition reg_open :: registration where
  "reg_open = \<lparr>r_id = ''r0'', r_userId = ''u1'', r_competitionId = ''c2'',
                r_idempotencyKey = None, r_registeredAt = 400, r_deletedAt = None\<rparr>"

definition db_open :: store where
  "db_open = db0\<lparr>registrations := [reg_open]\<rparr>"

text \<open>The store \<open>db1\<close> after the first competition was soft-deleted at 700.\<close>

definition db_late :: store where
  "db_late = db1\<lparr>competitions := [comp1\<lparr>c_deletedAt := Some 700\<rparr>]\<rparr>"

text \<open>Alice's admission to the second competition with the empty string as key.\<close>

definition reg_empty :: registration where
  "reg_empty = \<lparr>r_id = ''r1'', r_userId = ''u1'', r_competitionId = ''c2'',
                 r_idempotencyKey = Some [], r_registeredAt = 500, r_deletedAt = None\<rparr>"

definition db_empty :: store where
  "db_empty = db0\<lparr>registrations := [reg_empty]\<rparr>"

text \<open>Alice's admission to the first competition without a key.\<close>

definition reg_plain :: registration where
  "reg_plain = \<lparr>r_id = ''r1'', r_userId = ''u1'', r_competitionId = ''c1'',
                 r_idempotencyKey = None, r_registeredAt = 500, r_deletedAt = None\<rparr>"

definition db_plain :: store where
  "db_plain = db0\<lparr>registrations := [reg_plain]\<rparr>"

text \<open>Bob's admission to the first competition, next to Alice's \<open>reg_plain\<close>.\<close>

definition reg_bob :: registration where
  "reg_bob = \<lparr>r_id = ''r2'', r_userId = ''u2'', r_competitionId = ''c1'',
               r_idempotencyKey = None, r_registeredAt = 600, r_deletedAt = None\<rparr>"

definition db_both :: store where
  "db_both = db0\<lparr>registrations := [reg_plain, reg_bob]\<rparr>"

text \<open>
  The Confirmation job of \<open>reg1\<close>, as \<^verbatim>\<open>addConfirmationEmail\<close> enqueues it, with task
  id 7 and no attempt made.
\<close>

definition job1 :: job where
  "job1 = \<lparr>job_id = Some 7, job_name = ''sendConfirmation'',
            job_data = \<lparr>registrationId = ''r1'', userId = ''u1'', competitionId = ''c1'',
                         type = Confirmation\<rparr>,
            job_opts = \<lparr>attempts = 3, backoff_type = ''exponential'', backoff_delay = 2000,
                         removeOnComplete = Some True, removeOnFail = Some False\<rparr>,
            attemptsMade = 0\<rparr>"

definition attempt :: "ident \<Rightarrow> instant \<Rightarrow> string option \<Rightarrow> attemptEnv" where
  "attempt i t f = \<lparr>a_gen = \<lparr>uuid = i, dbNow = t\<rparr>, a_mailFault = f\<rparr>"

text \<open>Four executions without a fault, and four of which the first two meet one.\<close>

definition calm :: "attemptEnv list" where
  "calm = [attempt ''x1'' 1000 None, attempt ''x2'' 3000 None, attempt ''x3'' 7000 None,
           attempt ''x4'' 15000 None]"

definition stormy :: "attemptEnv list" where
  "stormy = [attempt ''x1'' 1000 (Some ''timeout''), attempt ''x2'' 3000 (Some ''timeout''),
             attempt ''x3'' 7000 None, attempt ''x4'' 15000 None]"

text \<open>
  A scheduler's day, in milliseconds from \<open>now = 0\<close>: one competition starts in 24
  hours and a half, one in 72 hours. The first has two active registrations and a
  soft-deleted one, the second has one active registration.
\<close>

definition comp_soon :: competition where
  "comp_soon = \<lparr>c_id = ''c3'', c_title = ''Soon'', c_capacity = 5, c_regDeadline = 1000,
                 c_startDate = Some 88200000, c_deletedAt = None\<rparr>"

definition comp_far :: competition where
  "comp_far = \<lparr>c_id = ''c4'', c_title = ''Far'', c_capacity = 5, c_regDeadline = 1000,
                c_startDate = Some 259200000, c_deletedAt = None\<rparr>"

definition regA :: registration where
  "regA = \<lparr>r_id = ''ra'', r_userId = ''u1'', r_competitionId = ''c3'',
            r_idempotencyKey = None, r_registeredAt = 10, r_deletedAt = None\<rparr>"

definition regB :: registration where
  "regB = \<lparr>r_id = ''rb'', r_userId = ''u2'', r_competitionId = ''c3'',
            r_idempotencyKey = None, r_registeredAt = 20, r_deletedAt = None\<rparr>"

definition regC :: registration where
  "regC = \<lparr>r_id = ''rc'', r_userId = ''u3'', r_competitionId = ''c3'',
            r_idempotencyKey = None, r_registeredAt = 30, r_deletedAt = Some 40\<rparr>"

definition regD :: registration where
  "regD = \<lparr>r_id = ''rd'', r_userId = ''u1'', r_competitionId = ''c4'',
            r_idempotencyKey = None, r_registeredAt = 50, r_deletedAt = None\<rparr>"

definition carol :: user where
  "carol = \<lparr>u_id = ''u3'', u_name = ''Carol'', u_email = ''c@x''\<rparr>"

definition db_sched :: store where
  "db_sched = \<lparr>users = [alice, bob, carol], competitions = [comp_soon, comp_far],
                registrations = [regA, regC, regD, regB], mailBoxes = [], failedJobs = []\<rparr>"

definition q0 :: workQueue where
  "q0 = \<lparr>wq_jobs = [], wq_counter = 1\<rparr>"

text \<open>A queue whose \<^verbatim>\<open>add\<close> always rejects, and leaves the queue (a job list) alone.\<close>

definition failingAdd :: "(job list) enqueue" where
  "failingAdd name d opts q = (Inl ''ECONNREFUSED'', q)"

lemmas admission_defs =
  register_def idempotencyLookup_def registerTx_def registration_create_def
  competition_findUnique_def user_findUnique_def count_registrations_def
  registration_findUnique_idempotencyKey_def
  registration_findUnique_userId_competitionId_def addConfirmationEmail_def
  NotFound_def DeadlineExceeded_def CapacityExceeded_def AlreadyRegistered_def Let_def

lemmas test_data_defs =
  alice_def bob_def comp1_def comp2_def db0_def reg1_def db1_def gen1_def gen2_def
  failingAdd_def db_deleted_def reg_open_def db_open_def db_late_def reg_empty_def
  db_empty_def reg_plain_def db_plain_def reg_bob_def db_both_def

lemmas worker_defs =
  handleConfirmation_def confirmationBody_def mailBox_create_def failedJob_create_def
  registration_findUnique_def user_findUnique_def competition_findUnique_def
  startTask_def newline_def Let_def

lemmas worker_data_defs = job1_def attempt_def calm_def stormy_def

lemmas scheduler_data_defs =
  comp_soon_def comp_far_def regA_def regB_def regC_def regD_def db_sched_def q0_def
  alice_def bob_def carol_def

section \<open>Lemmas on lists and on the store's constraints\<close>

lemma find_in_set: "find P xs = Some x \<Longrightarrow> x \<in> set xs \<and> P x"
  by (induction xs) (auto split: if_splits)

lemma filter_single_find: "filter P xs = [x] \<Longrightarrow> find P xs = Some x"
  by (induction xs) (auto split: if_splits simp: filter_empty_conv find_None_iff)

lemma key_in_map_filter:
  "k \<in> set (List.map_filter f xs) \<longleftrightarrow> list_ex (\<lambda>x. f x = Some k) xs"
  by (induction xs) (auto split: option.splits)

lemma key_absent_filter:
  "k \<notin> set (List.map_filter f xs) \<Longrightarrow> filter (\<lambda>y. f y = Some k) xs = []"
  by (simp add: key_in_map_filter filter_empty_conv list_ex_iff)

lemma map_filter_snoc:
  "List.map_filter f (xs @ [x]) =
     List.map_filter f xs @ (case f x of None \<Rightarrow> [] | Some k \<Rightarrow> [k])"
  by (induction xs) (auto split: option.splits)

text \<open>Under a unique constraint on the key, a row is the only one with its key.\<close>

lemma keys_filter_single:
  "distinct (List.map_filter f xs) \<Longrightarrow> x \<in> set xs \<Longrightarrow> f x = Some k
     \<Longrightarrow> filter (\<lambda>y. f y = Some k) xs = [x]"
proof (induction xs)
  case Nil
  then show ?case by simp
next
  case (Cons a xs)
  from Cons.prems(1) have dx: "distinct (List.map_filter f xs)"
    by (cases "f a") simp_all
  show ?case
  proof (cases "f a = Some k")
    case True
    with Cons.prems(1) have "k \<notin> set (List.map_filter f xs)"
      by simp
    then have none: "filter (\<lambda>y. f y = Some k) xs = []"
      by (rule key_absent_filter)
    show ?thesis
    proof (cases "x = a")
      case True
      with none \<open>f a = Some k\<close> show ?thesis by simp
    next
      case False
      with Cons.prems(2) have "x \<in> set xs" by simp
      from Cons.IH [OF dx this Cons.prems(3)] none show ?thesis by simp
    qed
  next
    case False
    with Cons.prems have "x \<in> set xs" by auto
    from Cons.IH [OF dx this Cons.prems(3)] False show ?thesis by simp
  qed
qed

text \<open>
  A call of \<^verbatim>\<open>register\<close> leaves the store as it was, or leaves the store that
  \<^verbatim>\<open>registration.create\<close> returned.
\<close>

lemma register_store_cases:
  "fst (snd (register add now g db q cid uid key)) = db
   \<or> (\<exists>res. registration_create g db uid cid key
               = Inr (res, fst (snd (register add now g db q cid uid key))))"
  by (auto simp: register_def registerTx_def
           split: option.splits if_splits sum.splits prod.splits)

lemma registration_create_keysDistinct:
  assumes "keysDistinct db" and "registration_create g db uid cid key = Inr (res, db')"
  shows "keysDistinct db'"
proof -
  from assms(2)
  have fresh: "\<not> list_ex (\<lambda>r. key \<noteq> None \<and> r_idempotencyKey r = key) (registrations db)"
    and db': "registrations db' = registrations db @
        [\<lparr>r_id = uuid g, r_userId = uid, r_competitionId = cid, r_idempotencyKey = key,
          r_registeredAt = dbNow g, r_deletedAt = None\<rparr>]"
    by (auto simp: registration_create_def Let_def list_ex_iff
             split: if_splits option.splits)
  show ?thesis
  proof (cases key)
    case None
    with assms(1) db' show ?thesis by (simp add: keysDistinct_def map_filter_snoc)
  next
    case (Some k)
    with fresh have "k \<notin> set (List.map_filter r_idempotencyKey (registrations db))"
      by (simp add: key_in_map_filter)
    with assms(1) db' Some show ?thesis by (simp add: keysDistinct_def map_filter_snoc)
  qed
qed

lemma register_preserves_keysDistinct:
  assumes "keysDistinct db"
  shows "keysDistinct (fst (snd (register add now g db q cid uid key)))"
  using register_store_cases [of add now g db q cid uid key] assms
  by (auto dest: registration_create_keysDistinct)

lemma registration_create_pairsDistinct:
  assumes "pairsDistinct db" and "registration_create g db uid cid key = Inr (res, db')"
  shows "pairsDistinct db'"
  using assms
  by (auto simp: registration_create_def Let_def list_ex_iff pairsDistinct_def
           split: if_splits option.splits)

lemma register_preserves_pairsDistinct:
  assumes "pairsDistinct db"
  shows "pairsDistinct (fst (snd (register add now g db q cid uid key)))"
  using register_store_cases [of add now g db q cid uid key] assms
  by (auto dest: registration_create_pairsDistinct)

text \<open>
  A call with a non-empty key that returns a registration returns a row that is in
  the store afterwards and carries the key.
\<close>

lemma register_row_stored:
  assumes "k \<noteq> []"
    and "register add now g db q cid uid (Some k) = (Inr res, db', q')"
  shows "rr_row res \<in> set (registrations db') \<and> r_idempotencyKey (rr_row res) = Some k"
  using assms
  by (auto simp: register_def idempotencyLookup_def registerTx_def registration_create_def
        registration_findUnique_idempotencyKey_def Let_def
      dest: find_in_set
      split: option.splits if_splits sum.splits prod.splits)

section \<open>Lemmas on the scheduler\<close>

lemma addReminderEmail_wq:
  "snd (addReminderEmail wq_add rid uid cid q) =
     q\<lparr>wq_jobs := wq_jobs q @
          [\<lparr>job_id = Some (wq_counter q), job_name = ''sendReminder'',
            job_data = \<lparr>registrationId = rid, userId = uid, competitionId = cid,
                         type = Reminder\<rparr>,
            job_opts = \<lparr>attempts = 3, backoff_type = ''exponential'', backoff_delay = 2000,
                         removeOnComplete = None, removeOnFail = None\<rparr>,
            attemptsMade = 0\<rparr>],
        wq_counter := Suc (wq_counter q)\<rparr>"
  by (simp add: addReminderEmail_def wq_add_def)

text \<open>Enqueuing the reminders of a list of registrations appends one task per element.\<close>

lemma fold_reminders:
  "\<exists>js. wq_jobs (fold (\<lambda>r q'. snd (addReminderEmail wq_add (r_id r) (r_userId r)
                                      (r_competitionId r) q')) rs q) = wq_jobs q @ js
        \<and> map job_data js = map reminderPayload rs
        \<and> list_all (\<lambda>j. job_name j = ''sendReminder'' \<and> attemptsMade j = 0) js"
proof (induction rs arbitrary: q)
  case Nil
  then show ?case by simp
next
  case (Cons r rs)
  let ?q1 = "snd (addReminderEmail wq_add (r_id r) (r_userId r) (r_competitionId r) q)"
  from Cons.IH [of ?q1] obtain js where
    js: "wq_jobs (fold (\<lambda>r q'. snd (addReminderEmail wq_add (r_id r) (r_userId r)
                                      (r_competitionId r) q')) rs ?q1) = wq_jobs ?q1 @ js"
      "map job_data js = map reminderPayload rs"
      "list_all (\<lambda>j. job_name j = ''sendReminder'' \<and> attemptsMade j = 0) js"
    by blast
  show ?case
    apply (rule exI [of _ "drop (length (wq_jobs q)) (wq_jobs ?q1) @ js"])
    using js by (simp add: addReminderEmail_wq reminderPayload_def)
qed

lemma sendReminders_jobs:
  "\<exists>js. wq_jobs (sendReminders now la d db q) = wq_jobs q @ js
        \<and> newJobs q (sendReminders now la d db q) = js
        \<and> map job_data js = map reminderPayload (dueRegistrations now la d db)
        \<and> list_all (\<lambda>j. job_name j = ''sendReminder'' \<and> attemptsMade j = 0) js"
proof -
  from fold_reminders [of "dueRegistrations now la d db" q] obtain js where
    js: "wq_jobs (sendReminders now la d db q) = wq_jobs q @ js"
      "map job_data js = map reminderPayload (dueRegistrations now la d db)"
      "list_all (\<lambda>j. job_name j = ''sendReminder'' \<and> attemptsMade j = 0) js"
    unfolding sendReminders_def by blast
  then show ?thesis by (simp add: newJobs_def)
qed

lemma distinct_filter_single:
  "distinct (map f xs) \<Longrightarrow> x \<in> set xs \<Longrightarrow> filter (\<lambda>y. f y = f x) xs = [x]"
proof (induction xs)
  case Nil
  then show ?case by simp
next
  case (Cons a xs)
  show ?case
  proof (cases "x = a")
    case True
    with Cons.prems(1) have "f x \<notin> f ` set xs" by simp
    then have "filter (\<lambda>y. f y = f x) xs = []"
      unfolding filter_empty_conv by (metis imageI)
    with True show ?thesis by simp
  next
    case False
    with Cons.prems have "x \<in> set xs" "f a \<noteq> f x" "distinct (map f xs)" by auto
    with Cons.IH show ?thesis by simp
  qed
qed

lemma concat_if_single:
  "concat (map (\<lambda>c. if P c then [r] else []) cs) = map (\<lambda>c. r) (filter P cs)"
  by (induction cs) auto

text \<open>
  With unique competition ids and unique registration ids, an active registration of
  a competition in the window is due exactly once.
\<close>

lemma due_count:
  assumes "distinct (map c_id (competitions db))"
    and "distinct (map r_id (registrations db))"
    and "r \<in> set (registrations db)" and "r_deletedAt r = None"
    and "c \<in> set (competitions db)" and "c_id c = r_competitionId r"
    and "startsInWindow now la d c"
  shows "filter (\<lambda>x. r_id x = r_id r) (dueRegistrations now la d db) = [r]"
proof -
  let ?dcs = "filter (startsInWindow now la d) (competitions db)"
  have one: "filter (\<lambda>x. r_id x = r_id r) (registrations db) = [r]"
    using distinct_filter_single [OF assms(2,3)] .
  have per: "filter (\<lambda>x. r_id x = r_id r) (activeRegistrations db c') =
      (if c_id c' = c_id c then [r] else [])" for c'
  proof -
    have "filter (\<lambda>x. r_id x = r_id r) (activeRegistrations db c') =
        filter (\<lambda>x. r_competitionId x = c_id c' \<and> r_deletedAt x = None)
          (filter (\<lambda>x. r_id x = r_id r) (registrations db))"
      by (auto simp: activeRegistrations_def intro: filter_cong)
    with one assms(4,6) show ?thesis by auto
  qed
  have dd: "distinct (map c_id ?dcs)" using assms(1) by (rule distinct_map_filter)
  have cin: "c \<in> set ?dcs" using assms(5,7) by simp
  have "filter (\<lambda>x. r_id x = r_id r) (dueRegistrations now la d db) =
      concat (map (\<lambda>c'. if c_id c' = c_id c then [r] else []) ?dcs)"
    by (simp add: dueRegistrations_def filter_concat comp_def per)
  also have "\<dots> = map (\<lambda>c'. r) (filter (\<lambda>c'. c_id c' = c_id c) ?dcs)"
    by (rule concat_if_single)
  also have "\<dots> = [r]" using distinct_filter_single [OF dd cin] by simp
  finally show ?thesis .
qed

lemma due_member:
  "r \<in> set (dueRegistrations now la d db) \<Longrightarrow>
     r \<in> set (registrations db) \<and> r_deletedAt r = None
     \<and> (\<exists>c. c \<in> set (competitions db) \<and> c_id c = r_competitionId r
            \<and> startsInWindow now la d c)"
  by (auto simp: dueRegistrations_def activeRegistrations_def)

section \<open>Admission: capacity\<close>

text \<open>When no other call intervenes, the interleaved callback is the atomic one.\<close>

lemma registerTx_interleaved_same_store:
  "registerTx_interleaved now g db db db cid uid key = registerTx now g db cid uid key"
  by (simp add: registerTx_interleaved_def registerTx_def)

text \<open>
  Calls that run one after the other keep the registration count of every
  competition within its capacity.
\<close>

lemma register_keeps_capacity:
  assumes "competition_findUnique db cid' = Some c'"
    and "int (count_registrations db cid') \<le> c_capacity c'"
  shows "int (count_registrations (fst (snd (register add now g db q cid uid key))) cid')
           \<le> c_capacity c'"
  using assms
  by (auto simp: register_def registerTx_def registration_create_def Let_def
        count_registrations_def
      split: option.splits if_splits sum.splits prod.splits)

text \<open>
  C1, on the code: two calls by distinct users for a competition with one place,
  whose transactions overlap. Both read the competition while it has no
  registration (the store \<open>db0\<close>); Alice's transaction inserts and commits; then Bob's
  transaction, which has passed the capacity check on what it read, inserts too.
  Both calls succeed, and the competition of capacity 1 holds 2 registrations. Had
  Bob's transaction started after Alice's commit, it would have been refused with
  CapacityExceeded.
\<close>

theorem registerTx_interleaved_exceeds_capacity:
  "c_capacity comp1 = 1 \<and> count_registrations db0 ''c1'' = 0
   \<and> registerTx_interleaved 500 gen1 db0 db0 db0 ''c1'' ''u1'' None
       = Inr (\<lparr>rr_row = reg_plain, rr_competition = Some comp1, rr_user = Some alice\<rparr>,
              db_plain)
   \<and> registerTx_interleaved 500 gen2 db0 db0 db_plain ''c1'' ''u2'' None
       = Inr (\<lparr>rr_row = reg_bob, rr_competition = Some comp1, rr_user = Some bob\<rparr>,
              db_both)
   \<and> count_registrations db_both ''c1'' = 2
   \<and> registerTx_interleaved 500 gen2 db_plain db_plain db_plain ''c1'' ''u2'' None
       = Inl CapacityExceeded"
  by (simp add: registerTx_interleaved_def admission_defs test_data_defs)

section \<open>Admission: the idempotent hit\<close>

text \<open>On a hit of the idempotency lookup the call returns the row found at once.\<close>

lemma register_hit_returns_existing:
  assumes "idempotencyLookup db key = Some existing"
  shows "register add now g db q cid uid key =
           (Inr \<lparr>rr_row = existing, rr_competition = None, rr_user = None\<rparr>, db, q)"
  using assms by (simp add: register_def)

text \<open>A key that a stored row carries is refused by \<^verbatim>\<open>registration.create\<close>.\<close>

lemma registration_create_taken_key:
  assumes "r \<in> set (registrations db)" and "r_idempotencyKey r = Some k"
  shows "registration_create g db uid cid (Some k)
           = Inl (PrismaClientKnownRequestError ''P2002'')"
  using assms by (auto simp: registration_create_def list_ex_iff)

lemma registerTx_taken_key:
  assumes "r \<in> set (registrations db)" and "r_idempotencyKey r = Some k"
  shows "\<exists>e. registerTx now g db cid uid (Some k) = Inl e"
  using registration_create_taken_key [OF assms]
  by (auto simp: registerTx_def split: option.splits)

text \<open>
  C10: a call that supplies an idempotency key carried by a registration in the store
  writes nothing: the store and the queue after the call are the store and the queue
  before it -- no row inserted, none changed, no Confirmation task enqueued, whatever
  the queue's \<open>add\<close> would do. This holds for every key, the empty string too: a
  non-empty key is found by the lookup and the call returns at once; the empty key
  skips the lookup, and the transaction then either fails one of its checks or is
  refused by the unique constraint on the key.
\<close>

theorem register_matching_key_no_writes:
  assumes "r \<in> set (registrations db)" and "r_idempotencyKey r = Some k"
  shows "snd (register add now g db q cid uid (Some k)) = (db, q)"
proof (cases "k = []")
  case True
  then have miss: "idempotencyLookup db (Some k) = None"
    by (simp add: idempotencyLookup_def)
  from registerTx_taken_key [OF assms] obtain e
    where "registerTx now g db cid uid (Some k) = Inl e" by blast
  with miss show ?thesis by (simp add: register_def)
next
  case False
  from assms have "find (\<lambda>x. r_idempotencyKey x = Some k) (registrations db) \<noteq> None"
    by (auto simp: find_None_iff)
  with False obtain existing where "idempotencyLookup db (Some k) = Some existing"
    by (auto simp: idempotencyLookup_def registration_findUnique_idempotencyKey_def)
  then show ?thesis by (simp add: register_hit_returns_existing)
qed

text \<open>
  The witness, on a queue that accepts every task: Alice repeats her call with key k1
  after the deadline (now = 5000), on the full competition, and gets \<open>reg1\<close>; Bob
  calls with the empty key that Alice's registration \<open>reg_empty\<close> carries, passes the
  four checks and is refused by the unique constraint. Neither call changes the
  store or the queue.
\<close>

theorem register_matching_key_no_writes_witness:
  "reg1 \<in> set (registrations db1) \<and> r_idempotencyKey reg1 = Some ''k1''
   \<and> register wq_add 5000 gen2 db1 q0 ''c1'' ''u1'' (Some ''k1'')
       = (Inr \<lparr>rr_row = reg1, rr_competition = None, rr_user = None\<rparr>, db1, q0)
   \<and> reg_empty \<in> set (registrations db_empty) \<and> r_idempotencyKey reg_empty = Some []
   \<and> register wq_add 500 gen2 db_empty q0 ''c2'' ''u2'' (Some [])
       = (Inl (PrismaClientKnownRequestError ''P2002''), db_empty, q0)"
proof -
  have m1: "reg1 \<in> set (registrations db1)" and k1: "r_idempotencyKey reg1 = Some ''k1''"
    and m2: "reg_empty \<in> set (registrations db_empty)"
    and k2: "r_idempotencyKey reg_empty = Some []"
    by (simp_all add: test_data_defs)
  have r1: "fst (register wq_add 5000 gen2 db1 q0 ''c1'' ''u1'' (Some ''k1''))
      = Inr \<lparr>rr_row = reg1, rr_competition = None, rr_user = None\<rparr>"
    by (simp add: admission_defs test_data_defs)
  have r2: "fst (register wq_add 500 gen2 db_empty q0 ''c2'' ''u2'' (Some []))
      = Inl (PrismaClientKnownRequestError ''P2002'')"
    by (simp add: admission_defs test_data_defs)
  from register_matching_key_no_writes [OF m1 k1, where add = wq_add and now = 5000
      and g = gen2 and q = q0 and cid = "''c1''" and uid = "''u1''"] r1
  have a: "register wq_add 5000 gen2 db1 q0 ''c1'' ''u1'' (Some ''k1'')
       = (Inr \<lparr>rr_row = reg1, rr_competition = None, rr_user = None\<rparr>, db1, q0)"
    by (metis prod.collapse)
  from register_matching_key_no_writes [OF m2 k2, where add = wq_add and now = 500
      and g = gen2 and q = q0 and cid = "''c2''" and uid = "''u2''"] r2
  have b: "register wq_add 500 gen2 db_empty q0 ''c2'' ''u2'' (Some [])
       = (Inl (PrismaClientKnownRequestError ''P2002''), db_empty, q0)"
    by (metis prod.collapse)
  from m1 k1 m2 k2 a b show ?thesis by simp
qed

section \<open>Admission: the checks of the transaction\<close>

text \<open>
  C2: for a call with no idempotency hit, the transaction fails with NotFound when
  the competition is absent or soft-deleted; otherwise with DeadlineExceeded when
  the current time is strictly after the deadline, whatever the remaining capacity;
  otherwise with CapacityExceeded when the registration count is at least the
  capacity; otherwise with AlreadyRegistered when a registration of the pair exists.
  A failed call leaves the store and the queue as they were. A registration is
  inserted only if all four checks pass, and the inserted row carries the call's
  user, competition and idempotency key.
\<close>

theorem register_checks_in_order:
  assumes "idempotencyLookup db key = None"
  shows
    "(competition_findUnique db cid = None
       \<longrightarrow> register add now g db q cid uid key = (Inl NotFound, db, q))
     \<and> (competition_findUnique db cid = Some c \<and> c_deletedAt c \<noteq> None
       \<longrightarrow> register add now g db q cid uid key = (Inl NotFound, db, q))
     \<and> (competition_findUnique db cid = Some c \<and> c_deletedAt c = None
          \<and> now > c_regDeadline c
       \<longrightarrow> register add now g db q cid uid key = (Inl DeadlineExceeded, db, q))
     \<and> (competition_findUnique db cid = Some c \<and> c_deletedAt c = None
          \<and> now \<le> c_regDeadline c \<and> int (count_registrations db cid) \<ge> c_capacity c
       \<longrightarrow> register add now g db q cid uid key = (Inl CapacityExceeded, db, q))
     \<and> (competition_findUnique db cid = Some c \<and> c_deletedAt c = None
          \<and> now \<le> c_regDeadline c \<and> int (count_registrations db cid) < c_capacity c
          \<and> registration_findUnique_userId_competitionId db uid cid = Some r
       \<longrightarrow> register add now g db q cid uid key = (Inl AlreadyRegistered, db, q))
     \<and> (register add now g db q cid uid key = (res, db', q') \<and> db' \<noteq> db
       \<longrightarrow> (\<exists>c. competition_findUnique db cid = Some c \<and> c_deletedAt c = None
              \<and> now \<le> c_regDeadline c \<and> int (count_registrations db cid) < c_capacity c)
           \<and> registration_findUnique_userId_competitionId db uid cid = None
           \<and> registrations db' = registrations db @
                [\<lparr>r_id = uuid g, r_userId = uid, r_competitionId = cid,
                  r_idempotencyKey = key, r_registeredAt = dbNow g, r_deletedAt = None\<rparr>]
           \<and> (\<exists>row. res = Inr row \<and> rr_row row = last (registrations db')))"
proof -
  have absent: "competition_findUnique db cid = None
       \<longrightarrow> register add now g db q cid uid key = (Inl NotFound, db, q)"
    using assms by (simp add: register_def registerTx_def NotFound_def)
  have deleted: "competition_findUnique db cid = Some c \<and> c_deletedAt c \<noteq> None
       \<longrightarrow> register add now g db q cid uid key = (Inl NotFound, db, q)"
    using assms by (auto simp: register_def registerTx_def NotFound_def)
  have late: "competition_findUnique db cid = Some c \<and> c_deletedAt c = None
          \<and> now > c_regDeadline c
       \<longrightarrow> register add now g db q cid uid key = (Inl DeadlineExceeded, db, q)"
    using assms by (auto simp: register_def registerTx_def DeadlineExceeded_def)
  have full: "competition_findUnique db cid = Some c \<and> c_deletedAt c = None
          \<and> now \<le> c_regDeadline c \<and> int (count_registrations db cid) \<ge> c_capacity c
       \<longrightarrow> register add now g db q cid uid key = (Inl CapacityExceeded, db, q)"
    using assms by (auto simp: register_def registerTx_def CapacityExceeded_def)
  have twice: "competition_findUnique db cid = Some c \<and> c_deletedAt c = None
          \<and> now \<le> c_regDeadline c \<and> int (count_registrations db cid) < c_capacity c
          \<and> registration_findUnique_userId_competitionId db uid cid = Some r
       \<longrightarrow> register add now g db q cid uid key = (Inl AlreadyRegistered, db, q)"
    using assms by (auto simp: register_def registerTx_def AlreadyRegistered_def)
  have inserted: "register add now g db q cid uid key = (res, db', q') \<and> db' \<noteq> db
       \<longrightarrow> (\<exists>c. competition_findUnique db cid = Some c \<and> c_deletedAt c = None
              \<and> now \<le> c_regDeadline c \<and> int (count_registrations db cid) < c_capacity c)
           \<and> registration_findUnique_userId_competitionId db uid cid = None
           \<and> registrations db' = registrations db @
                [\<lparr>r_id = uuid g, r_userId = uid, r_competitionId = cid,
                  r_idempotencyKey = key, r_registeredAt = dbNow g, r_deletedAt = None\<rparr>]
           \<and> (\<exists>row. res = Inr row \<and> rr_row row = last (registrations db'))"
    using assms
    by (auto simp: register_def registerTx_def registration_create_def Let_def
             split: option.splits if_splits sum.splits prod.splits)
  from absent deleted late full twice inserted show ?thesis by (intro conjI)
qed

text \<open>
  The witness runs the six cases: an unknown competition; a soft-deleted one; a call
  after the deadline on an empty competition; Bob on the full first competition;
  Alice again on the second competition, where she holds one of two places; and
  Alice's admission to the first competition with key k1, which inserts \<open>reg1\<close>.
\<close>

theorem register_checks_in_order_witness:
  "register failingAdd 500 gen1 db0 [] ''c9'' ''u1'' None = (Inl NotFound, db0, [])
   \<and> register failingAdd 500 gen1 db_deleted [] ''c1'' ''u1'' None
       = (Inl NotFound, db_deleted, [])
   \<and> register failingAdd 1001 gen1 db0 [] ''c1'' ''u1'' None
       = (Inl DeadlineExceeded, db0, [])
   \<and> register failingAdd 500 gen2 db1 [] ''c1'' ''u2'' None
       = (Inl CapacityExceeded, db1, [])
   \<and> register failingAdd 500 gen2 db_open [] ''c2'' ''u1'' None
       = (Inl AlreadyRegistered, db_open, [])
   \<and> register failingAdd 500 gen1 db0 [] ''c1'' ''u1'' (Some ''k1'')
       = (Inr \<lparr>rr_row = reg1, rr_competition = Some comp1, rr_user = Some alice\<rparr>, db1, [])
   \<and> registrations db1 = registrations db0 @ [reg1]"
proof -
  have miss0: "idempotencyLookup db0 None = None"
    and missd: "idempotencyLookup db_deleted None = None"
    and miss1: "idempotencyLookup db1 None = None"
    and misso: "idempotencyLookup db_open None = None"
    and missk: "idempotencyLookup db0 (Some ''k1'') = None"
    by (simp_all add: admission_defs test_data_defs)
  have run: "register failingAdd 500 gen1 db0 [] ''c1'' ''u1'' (Some ''k1'')
       = (Inr \<lparr>rr_row = reg1, rr_competition = Some comp1, rr_user = Some alice\<rparr>, db1, [])"
    by (simp add: admission_defs test_data_defs)
  have changed: "db1 \<noteq> db0"
    by (simp add: test_data_defs)
  have "register failingAdd 500 gen1 db0 [] ''c9'' ''u1'' None = (Inl NotFound, db0, [])"
    using register_checks_in_order [OF miss0, where cid = "''c9''" and add = failingAdd
        and now = 500 and g = gen1 and q = "[]" and uid = "''u1''"]
    by (simp add: competition_findUnique_def test_data_defs)
  moreover
  have "register failingAdd 500 gen1 db_deleted [] ''c1'' ''u1'' None
       = (Inl NotFound, db_deleted, [])"
    using register_checks_in_order [OF missd, where cid = "''c1''"
        and c = "comp1\<lparr>c_deletedAt := Some 100\<rparr>" and add = failingAdd
        and now = 500 and g = gen1 and q = "[]" and uid = "''u1''"]
    by (simp add: competition_findUnique_def test_data_defs)
  moreover
  have "register failingAdd 1001 gen1 db0 [] ''c1'' ''u1'' None
       = (Inl DeadlineExceeded, db0, [])"
    using register_checks_in_order [OF miss0, where cid = "''c1''" and c = comp1
        and add = failingAdd and now = 1001 and g = gen1 and q = "[]" and uid = "''u1''"]
    by (simp add: competition_findUnique_def test_data_defs)
  moreover
  have "register failingAdd 500 gen2 db1 [] ''c1'' ''u2'' None
       = (Inl CapacityExceeded, db1, [])"
    using register_checks_in_order [OF miss1, where cid = "''c1''" and c = comp1
        and add = failingAdd and now = 500 and g = gen2 and q = "[]" and uid = "''u2''"]
    by (simp add: competition_findUnique_def count_registrations_def test_data_defs)
  moreover
  have "register failingAdd 500 gen2 db_open [] ''c2'' ''u1'' None
       = (Inl AlreadyRegistered, db_open, [])"
    using register_checks_in_order [OF misso, where cid = "''c2''" and c = comp2
        and add = failingAdd and now = 500 and g = gen2 and q = "[]" and uid = "''u1''"
        and r = reg_open]
    by (simp add: competition_findUnique_def count_registrations_def
          registration_findUnique_userId_competitionId_def
          test_data_defs)
  moreover
  have "registrations db1 = registrations db0 @ [reg1]"
    using register_checks_in_order [OF missk, where cid = "''c1''" and add = failingAdd
        and now = 500 and g = gen1 and q = "[]" and uid = "''u1''" and db' = db1 and q' = "[]"
        and res = "Inr \<lparr>rr_row = reg1, rr_competition = Some comp1, rr_user = Some alice\<rparr>"]
      run changed
    by (simp add: test_data_defs)
  ultimately show ?thesis using run by simp
qed

section \<open>Admission: the enqueue after the commit\<close>

text \<open>
  C7: when the admission transaction of a call commits, a failure of the enqueue of
  the Confirmation task that follows does not fail the call and does not undo the
  commit: the call returns the new registration, and the store it leaves is the
  committed one, holding the new row.
\<close>

theorem register_survives_enqueue_failure:
  assumes "idempotencyLookup db key = None"
    and "registerTx now g db cid uid key = Inr (registration, db')"
    and "addConfirmationEmail add (r_id (rr_row registration)) uid cid q = (Inl err, q')"
  shows "register add now g db q cid uid key = (Inr registration, db', q')
         \<and> rr_row registration \<in> set (registrations db')"
proof -
  have "register add now g db q cid uid key = (Inr registration, db', q')"
    using assms by (simp add: register_def)
  moreover have "rr_row registration \<in> set (registrations db')"
    using assms(2)
    by (auto simp: registerTx_def registration_create_def Let_def
             split: option.splits if_splits)
  ultimately show ?thesis by simp
qed

theorem register_survives_enqueue_failure_witness:
  "addConfirmationEmail failingAdd ''r1'' ''u1'' ''c1'' [] = (Inl ''ECONNREFUSED'', [])
   \<and> register failingAdd 500 gen1 db0 [] ''c1'' ''u1'' (Some ''k1'')
       = (Inr \<lparr>rr_row = reg1, rr_competition = Some comp1, rr_user = Some alice\<rparr>, db1, [])
   \<and> reg1 \<in> set (registrations db1)"
proof -
  have miss: "idempotencyLookup db0 (Some ''k1'') = None"
    by (simp add: admission_defs test_data_defs)
  have tx: "registerTx 500 gen1 db0 ''c1'' ''u1'' (Some ''k1'')
      = Inr (\<lparr>rr_row = reg1, rr_competition = Some comp1, rr_user = Some alice\<rparr>, db1)"
    by (simp add: admission_defs test_data_defs)
  have enq: "addConfirmationEmail failingAdd
      (r_id (rr_row \<lparr>rr_row = reg1, rr_competition = Some comp1, rr_user = Some alice\<rparr>))
      ''u1'' ''c1'' [] = (Inl ''ECONNREFUSED'', [])"
    by (simp add: addConfirmationEmail_def failingAdd_def)
  from register_survives_enqueue_failure [OF miss tx enq] enq show ?thesis
    by (simp add: reg1_def)
qed

section \<open>Admission: repeated calls\<close>

text \<open>
  What does hold of repeated calls: when a call with a non-empty idempotency key has
  returned a registration, every later call with that key returns the same
  registration row -- whatever competition and user it names, whatever the time, and
  whatever has happened to the competitions since (filled, past its deadline,
  soft-deleted) -- and writes nothing; the store, in which keys are unique and from
  which no registration was removed, holds exactly one row with that key.
\<close>

lemma register_repeat_same_row:
  assumes "k \<noteq> []"
    and "register add now g db q cid uid (Some k) = (Inr res, db', q')"
    and "set (registrations db') \<subseteq> set (registrations db'')"
    and "keysDistinct db''"
  shows "(\<exists>res2. register add2 now2 g2 db'' q'' cid2 uid2 (Some k) = (Inr res2, db'', q'')
                 \<and> rr_row res2 = rr_row res)
         \<and> filter (\<lambda>r. r_idempotencyKey r = Some k) (registrations db'') = [rr_row res]"
proof -
  from register_row_stored [OF assms(1,2)] assms(3)
  have mem: "rr_row res \<in> set (registrations db'')"
    and key: "r_idempotencyKey (rr_row res) = Some k" by auto
  from assms(4) have "distinct (List.map_filter r_idempotencyKey (registrations db''))"
    by (simp add: keysDistinct_def)
  from keys_filter_single [OF this mem key]
  have one: "filter (\<lambda>r. r_idempotencyKey r = Some k) (registrations db'') = [rr_row res]" .
  then have "idempotencyLookup db'' (Some k) = Some (rr_row res)"
    using assms(1)
    by (simp add: idempotencyLookup_def registration_findUnique_idempotencyKey_def
          filter_single_find)
  then have "register add2 now2 g2 db'' q'' cid2 uid2 (Some k)
      = (Inr \<lparr>rr_row = rr_row res, rr_competition = None, rr_user = None\<rparr>, db'', q'')"
    by (simp add: register_def)
  with one show ?thesis by simp
qed

text \<open>
  For instance: Alice is admitted to the first competition with key k1 at 500; the
  competition is then soft-deleted; her call with k1 at 5000, after the deadline,
  returns the row \<open>reg1\<close>.
\<close>

lemma register_repeat_same_row_example:
  "register failingAdd 500 gen1 db0 [] ''c1'' ''u1'' (Some ''k1'')
     = (Inr \<lparr>rr_row = reg1, rr_competition = Some comp1, rr_user = Some alice\<rparr>, db1, [])
   \<and> set (registrations db1) \<subseteq> set (registrations db_late) \<and> keysDistinct db_late
   \<and> competition_findUnique db_late ''c1'' = Some (comp1\<lparr>c_deletedAt := Some 700\<rparr>)
   \<and> (\<exists>res2. register failingAdd 5000 gen2 db_late [] ''c1'' ''u1'' (Some ''k1'')
                 = (Inr res2, db_late, []) \<and> rr_row res2 = reg1)
   \<and> filter (\<lambda>r. r_idempotencyKey r = Some ''k1'') (registrations db_late) = [reg1]"
proof -
  have k: "''k1'' \<noteq> []" by simp
  have first: "register failingAdd 500 gen1 db0 [] ''c1'' ''u1'' (Some ''k1'')
     = (Inr \<lparr>rr_row = reg1, rr_competition = Some comp1, rr_user = Some alice\<rparr>, db1, [])"
    by (simp add: admission_defs test_data_defs)
  have sub: "set (registrations db1) \<subseteq> set (registrations db_late)"
    by (simp add: test_data_defs)
  have inv: "keysDistinct db_late"
    by (simp add: keysDistinct_def test_data_defs)
  have gone: "competition_findUnique db_late ''c1'' = Some (comp1\<lparr>c_deletedAt := Some 700\<rparr>)"
    by (simp add: competition_findUnique_def test_data_defs)
  from register_repeat_same_row [OF k first sub inv, where ?add2.0 = failingAdd
      and ?now2.0 = 5000 and ?g2.0 = gen2 and q'' = "[]" and ?cid2.0 = "''c1''"
      and ?uid2.0 = "''u1''"]
    first sub inv gone
  show ?thesis by simp
qed

text \<open>
  C3, on the code: repeated calls with one idempotency key do not return identical
  results. With the empty string as key, Alice's first call creates a registration
  that carries the key, and her second call with the same key is not answered with
  that registration but with AlreadyRegistered: the lookup is skipped for a falsy
  key, which \<^verbatim>\<open>registration.create\<close> has stored all the same. With key k1, the
  second call returns the row alone (\<^verbatim>\<open>findUnique\<close> without \<^verbatim>\<open>include\<close>), while the
  first call returned it together with the competition and the user: the two
  results differ.
\<close>

theorem register_repeat_not_identical:
  "register failingAdd 500 gen1 db0 [] ''c2'' ''u1'' (Some [])
     = (Inr \<lparr>rr_row = reg_empty, rr_competition = Some comp2, rr_user = Some alice\<rparr>,
        db_empty, [])
   \<and> reg_empty \<in> set (registrations db_empty) \<and> r_idempotencyKey reg_empty = Some []
   \<and> register failingAdd 600 gen2 db_empty [] ''c2'' ''u1'' (Some [])
       = (Inl AlreadyRegistered, db_empty, [])
   \<and> register failingAdd 500 gen1 db0 [] ''c1'' ''u1'' (Some ''k1'')
       = (Inr \<lparr>rr_row = reg1, rr_competition = Some comp1, rr_user = Some alice\<rparr>, db1, [])
   \<and> register failingAdd 600 gen2 db1 [] ''c1'' ''u1'' (Some ''k1'')
       = (Inr \<lparr>rr_row = reg1, rr_competition = None, rr_user = None\<rparr>, db1, [])
   \<and> fst (register failingAdd 600 gen2 db1 [] ''c1'' ''u1'' (Some ''k1''))
       \<noteq> fst (register failingAdd 500 gen1 db0 [] ''c1'' ''u1'' (Some ''k1''))"
  by (simp add: admission_defs test_data_defs)

section \<open>Admission: one registration per user and competition\<close>

text \<open>
  C4, as amended: at most one registration per (user, competition) pair exists, and
  the operations that write the store keep it so: \<^verbatim>\<open>register\<close> preserves the
  uniqueness of the pairs, and the email handler leaves the registrations alone. A
  call without idempotency key for a pair that is already registered never succeeds
  and never writes: it fails with NotFound, DeadlineExceeded, CapacityExceeded or
  AlreadyRegistered, and with AlreadyRegistered exactly when the competition exists,
  is not soft-deleted, its deadline has not passed and it is not full.
\<close>

theorem register_pair_at_most_once:
  "(pairsDistinct db \<longrightarrow> pairsDistinct (fst (snd (register add now g db q cid uid key))))
   \<and> registrations (snd (handleConfirmation e db j)) = registrations db
   \<and> (r \<in> set (registrations db) \<and> r_userId r = uid \<and> r_competitionId r = cid \<longrightarrow>
        (\<exists>err. register add now g db q cid uid None = (Inl err, db, q)
           \<and> (err = NotFound \<or> err = DeadlineExceeded \<or> err = CapacityExceeded
                \<or> err = AlreadyRegistered)
           \<and> (err = AlreadyRegistered \<longleftrightarrow>
                (\<exists>c. competition_findUnique db cid = Some c \<and> c_deletedAt c = None
                   \<and> now \<le> c_regDeadline c
                   \<and> int (count_registrations db cid) < c_capacity c))))"
proof -
  have inv: "pairsDistinct db \<longrightarrow> pairsDistinct (fst (snd (register add now g db q cid uid key)))"
    by (simp add: register_preserves_pairsDistinct)
  have frame: "registrations (snd (handleConfirmation e db j)) = registrations db"
    by (auto simp: handleConfirmation_def confirmationBody_def mailBox_create_def
          failedJob_create_def split: option.splits sum.splits if_splits)
  have again: "\<exists>err. register add now g db q cid uid None = (Inl err, db, q)
           \<and> (err = NotFound \<or> err = DeadlineExceeded \<or> err = CapacityExceeded
                \<or> err = AlreadyRegistered)
           \<and> (err = AlreadyRegistered \<longleftrightarrow>
                (\<exists>c. competition_findUnique db cid = Some c \<and> c_deletedAt c = None
                   \<and> now \<le> c_regDeadline c
                   \<and> int (count_registrations db cid) < c_capacity c))"
    if "r \<in> set (registrations db) \<and> r_userId r = uid \<and> r_competitionId r = cid"
  proof -
    from that have "registration_findUnique_userId_competitionId db uid cid \<noteq> None"
      by (auto simp: registration_findUnique_userId_competitionId_def find_None_iff)
    then show ?thesis
      by (auto simp: register_def idempotencyLookup_def registerTx_def NotFound_def
            DeadlineExceeded_def CapacityExceeded_def AlreadyRegistered_def
          split: option.splits)
  qed
  from inv frame again show ?thesis by blast
qed

text \<open>
  The witness: in \<open>db_open\<close> Alice holds one of the two places of the second
  competition. Bob's admission keeps the pairs distinct; Alice's second call fails
  with AlreadyRegistered and leaves the store alone.
\<close>

theorem register_pair_at_most_once_witness:
  "pairsDistinct db_open
   \<and> pairsDistinct (fst (snd (register failingAdd 500 gen2 db_open [] ''c2'' ''u2'' None)))
   \<and> length (registrations (fst (snd (register failingAdd 500 gen2 db_open [] ''c2'' ''u2'' None)))) = 2
   \<and> reg_open \<in> set (registrations db_open)
   \<and> register failingAdd 500 gen2 db_open [] ''c2'' ''u1'' None
       = (Inl AlreadyRegistered, db_open, [])"
proof -
  have inv: "pairsDistinct db_open"
    by (simp add: pairsDistinct_def test_data_defs)
  have mem: "reg_open \<in> set (registrations db_open) \<and> r_userId reg_open = ''u1''
      \<and> r_competitionId reg_open = ''c2''"
    by (simp add: test_data_defs)
  have ok: "\<exists>c. competition_findUnique db_open ''c2'' = Some c \<and> c_deletedAt c = None
      \<and> 500 \<le> c_regDeadline c \<and> int (count_registrations db_open ''c2'') < c_capacity c"
    by (simp add: competition_findUnique_def count_registrations_def test_data_defs)
  have two: "length (registrations
      (fst (snd (register failingAdd 500 gen2 db_open [] ''c2'' ''u2'' None)))) = 2"
    by (simp add: admission_defs test_data_defs)
  from register_pair_at_most_once [where db = db_open and add = failingAdd and now = 500
      and g = gen2 and q = "[]" and cid = "''c2''" and uid = "''u2''" and key = None]
    inv
  have after: "pairsDistinct (fst (snd (register failingAdd 500 gen2 db_open [] ''c2'' ''u2'' None)))"
    by blast
  from register_pair_at_most_once [where db = db_open and add = failingAdd and now = 500
      and g = gen2 and q = "[]" and cid = "''c2''" and uid = "''u1''" and r = reg_open]
    mem ok
  have "register failingAdd 500 gen2 db_open [] ''c2'' ''u1'' None
       = (Inl AlreadyRegistered, db_open, [])"
    by auto
  with inv after two mem show ?thesis by simp
qed

text \<open>
  The claim as stated fails on a competition with a single place: after Alice's
  admission the competition is full, and her second call is refused by the capacity
  check, which comes before the check of the pair.
\<close>

theorem register_pair_counterexample:
  "register failingAdd 500 gen1 db0 [] ''c1'' ''u1'' None
     = (Inr \<lparr>rr_row = reg_plain, rr_competition = Some comp1, rr_user = Some alice\<rparr>,
        db_plain, [])
   \<and> register failingAdd 600 gen2 db_plain [] ''c1'' ''u1'' None
       = (Inl CapacityExceeded, db_plain, [])
   \<and> CapacityExceeded \<noteq> AlreadyRegistered"
  by (simp add: admission_defs test_data_defs)

section \<open>Email worker: what a run of the handler writes\<close>

text \<open>The test job is the one \<^verbatim>\<open>addConfirmationEmail\<close> produces for \<open>reg1\<close>.\<close>

lemma job1_enqueued:
  "fst (addConfirmationEmail wq_add (r_id reg1) (r_userId reg1) (r_competitionId reg1)
          \<lparr>wq_jobs = [], wq_counter = 7\<rparr>) = Inr job1"
  by (simp add: addConfirmationEmail_def wq_add_def job1_def reg1_def)

text \<open>
  A run of \<^verbatim>\<open>handleConfirmation\<close> that fails, at whatever attempt, has appended one
  FailedJob row that records the job's payload, the error and \<^verbatim>\<open>job.attemptsMade\<close>
  (unless the error is that of the FailedJob write itself, a taken row id).
\<close>

lemma handleConfirmation_failure_row:
  assumes "handleConfirmation e db j = (Inl msg, db')"
    and "\<not> list_ex (\<lambda>f. f_id f = uuid (a_gen e)) (failedJobs db)"
  shows "db' = db\<lparr>failedJobs := failedJobs db @
            [\<lparr>f_id = uuid (a_gen e), f_jobName = ''sendConfirmation'',
              f_jobData = job_data j, f_error = msg, f_attempts = attemptsMade j,
              f_failedAt = dbNow (a_gen e)\<rparr>]\<rparr>"
  using assms
  by (auto simp: handleConfirmation_def failedJob_create_def split: sum.splits if_splits)

text \<open>
  An execution of the Confirmation handler that succeeds appends one mail box record,
  which carries the job's id and user; a second execution with the same job (no
  storage fault, a fresh row id) succeeds again and appends a second record that
  equals the first in every field but the generated id and timestamp.
\<close>

lemma handleConfirmation_twice:
  assumes "handleConfirmation e1 db j = (Inr True, db')"
    and "a_mailFault e2 = None"
    and "\<not> list_ex (\<lambda>m. m_id m = uuid (a_gen e2)) (mailBoxes db')"
  shows "\<exists>m. db' = db\<lparr>mailBoxes := mailBoxes db @ [m]\<rparr>
            \<and> m_jobId m = job_id j \<and> m_userId m = userId (job_data j)
            \<and> handleConfirmation e2 db' j =
                (Inr True,
                 db\<lparr>mailBoxes := mailBoxes db @
                       [m, m\<lparr>m_id := uuid (a_gen e2), m_sentAt := dbNow (a_gen e2)\<rparr>]\<rparr>)"
  using assms
  by (auto simp: worker_defs split: option.splits sum.splits if_splits)

text \<open>
  For instance: the Confirmation job of \<open>reg1\<close> is executed at 1000 and again at 3000.
\<close>

lemma handleConfirmation_twice_example:
  "fst (handleConfirmation (attempt ''x1'' 1000 None) db1 job1) = Inr True
   \<and> a_mailFault (attempt ''x2'' 3000 None) = None
   \<and> \<not> list_ex (\<lambda>m. m_id m = uuid (a_gen (attempt ''x2'' 3000 None)))
         (mailBoxes (snd (handleConfirmation (attempt ''x1'' 1000 None) db1 job1)))
   \<and> (\<exists>m. m_jobId m = Some 7 \<and> m_userId m = ''u1''
          \<and> handleConfirmation (attempt ''x2'' 3000 None)
               (snd (handleConfirmation (attempt ''x1'' 1000 None) db1 job1)) job1
             = (Inr True, db1\<lparr>mailBoxes := [m, m\<lparr>m_id := ''x2'', m_sentAt := 3000\<rparr>]\<rparr>))"
proof -
  obtain db' where first: "handleConfirmation (attempt ''x1'' 1000 None) db1 job1 = (Inr True, db')"
    by (simp add: worker_defs worker_data_defs test_data_defs)
  have calm2: "a_mailFault (attempt ''x2'' 3000 None) = None"
    by (simp add: attempt_def)
  have fresh: "\<not> list_ex (\<lambda>m. m_id m = uuid (a_gen (attempt ''x2'' 3000 None))) (mailBoxes db')"
    using first by (auto simp: worker_defs worker_data_defs test_data_defs)
  have empty: "mailBoxes db1 = []" and job: "job_id job1 = Some 7"
    and user: "userId (job_data job1) = ''u1''"
    and gen: "uuid (a_gen (attempt ''x2'' 3000 None)) = ''x2''"
      "dbNow (a_gen (attempt ''x2'' 3000 None)) = 3000"
    by (simp_all add: worker_data_defs test_data_defs)
  from handleConfirmation_twice [OF first calm2 fresh] first calm2 fresh
  show ?thesis by (auto simp: empty job user gen)
qed

text \<open>
  C8, on the code: executing the Confirmation handler twice with the same job does
  not have the effect of executing it once. After one execution the mail box holds
  one record for job 7; after the second execution, which succeeds too, it holds two
  records for job 7, both addressed to Alice. The record stores the job's id, but
  \<^verbatim>\<open>mailBox.create\<close> is unconditional and nothing is keyed on that id.
\<close>

theorem handleConfirmation_twice_duplicates:
  "fst (handleConfirmation (attempt ''x1'' 1000 None) db1 job1) = Inr True
   \<and> map m_jobId (mailBoxes (snd (handleConfirmation (attempt ''x1'' 1000 None) db1 job1)))
       = [Some 7]
   \<and> fst (handleConfirmation (attempt ''x2'' 3000 None)
            (snd (handleConfirmation (attempt ''x1'' 1000 None) db1 job1)) job1) = Inr True
   \<and> map m_jobId (mailBoxes (snd (handleConfirmation (attempt ''x2'' 3000 None)
            (snd (handleConfirmation (attempt ''x1'' 1000 None) db1 job1)) job1)))
       = [Some 7, Some 7]
   \<and> map m_to (mailBoxes (snd (handleConfirmation (attempt ''x2'' 3000 None)
            (snd (handleConfirmation (attempt ''x1'' 1000 None) db1 job1)) job1)))
       = [''a@x'', ''a@x'']
   \<and> snd (handleConfirmation (attempt ''x2'' 3000 None)
            (snd (handleConfirmation (attempt ''x1'' 1000 None) db1 job1)) job1)
       \<noteq> snd (handleConfirmation (attempt ''x1'' 1000 None) db1 job1)"
  by (simp add: worker_defs worker_data_defs test_data_defs)

section \<open>Email worker: retries and the FailedJob table\<close>

text \<open>
  C5, on the code: the job of a registration that is not in the store fails at every
  attempt. Its first failure, with no attempt made before and three allowed, already
  writes a FailedJob row. Run by the worker pool, the job is executed three times
  and removed, and is not executed a fourth time; the FailedJob table then holds
  three rows, one per attempt, recording 0, 1 and 2 attempts made -- not one row
  recording 3.
\<close>

theorem handleConfirmation_records_every_failure:
  "attemptsMade job1 = 0 \<and> attempts (job_opts job1) = 3
   \<and> handleConfirmation (attempt ''x1'' 1000 None) db0 job1
       = (Inl ''Registration not found'',
          db0\<lparr>failedJobs :=
            [\<lparr>f_id = ''x1'', f_jobName = ''sendConfirmation'', f_jobData = job_data job1,
              f_error = ''Registration not found'', f_attempts = 0, f_failedAt = 1000\<rparr>]\<rparr>)
   \<and> t_state (runTask calm (startTask db0 job1)) = Removed_on_failure
   \<and> t_executions (runTask calm (startTask db0 job1)) = 3
   \<and> map f_attempts (failedJobs (t_store (runTask calm (startTask db0 job1)))) = [0, 1, 2]"
  by (simp add: worker_defs worker_data_defs test_data_defs)

text \<open>
  C6, on the code: the job of \<open>reg1\<close>, enqueued with three attempts and a backoff
  base of 2000 ms, meets a storage fault at its first two executions and none at the
  third. It is rescheduled with delays of 2000 ms and 4000 ms, its third execution
  succeeds and writes the mail box record, and the task is removed -- but the two
  failures have each written a FailedJob row.
\<close>

theorem runTask_two_failures_then_success:
  "attempts (job_opts job1) = 3 \<and> backoff_delay (job_opts job1) = 2000
   \<and> t_state (runTask stormy (startTask db1 job1)) = Removed_on_success
   \<and> t_executions (runTask stormy (startTask db1 job1)) = 3
   \<and> t_delays (runTask stormy (startTask db1 job1)) = [2000, 4000]
   \<and> map m_jobId (mailBoxes (t_store (runTask stormy (startTask db1 job1)))) = [Some 7]
   \<and> map f_attempts (failedJobs (t_store (runTask stormy (startTask db1 job1)))) = [0, 1]
   \<and> map f_error (failedJobs (t_store (runTask stormy (startTask db1 job1))))
       = [''timeout'', ''timeout'']"
  by (simp add: worker_defs worker_data_defs test_data_defs)

section \<open>Scheduler: one reminder per active registration\<close>

text \<open>
  C9: a run of the scheduler appends to the queue exactly one Reminder task for every
  active registration of every competition whose start time falls in the lookahead
  window, and nothing else: the new tasks are as many as those registrations, each
  such registration has exactly one of them, and each of them carries the payload of
  such a registration. (Competition ids and registration ids are primary keys.)
\<close>

theorem sendReminders_one_per_registration:
  assumes "distinct (map c_id (competitions db))"
    and "distinct (map r_id (registrations db))"
  shows "wq_jobs (sendReminders now la d db q)
           = wq_jobs q @ newJobs q (sendReminders now la d db q)
     \<and> length (newJobs q (sendReminders now la d db q))
           = length (dueRegistrations now la d db)
     \<and> list_all (\<lambda>j. job_name j = ''sendReminder'' \<and> type (job_data j) = Reminder)
           (newJobs q (sendReminders now la d db q))
     \<and> (r \<in> set (registrations db) \<and> r_deletedAt r = None
          \<and> c \<in> set (competitions db) \<and> c_id c = r_competitionId r
          \<and> startsInWindow now la d c
        \<longrightarrow> length (filter (\<lambda>j. registrationId (job_data j) = r_id r)
                      (newJobs q (sendReminders now la d db q))) = 1)
     \<and> (j \<in> set (newJobs q (sendReminders now la d db q))
        \<longrightarrow> (\<exists>r c. r \<in> set (registrations db) \<and> r_deletedAt r = None
                  \<and> c \<in> set (competitions db) \<and> c_id c = r_competitionId r
                  \<and> startsInWindow now la d c \<and> job_data j = reminderPayload r))"
proof -
  let ?new = "newJobs q (sendReminders now la d db q)"
  let ?due = "dueRegistrations now la d db"
  from sendReminders_jobs [of now la d db q]
  have app: "wq_jobs (sendReminders now la d db q) = wq_jobs q @ ?new"
    and payloads: "map job_data ?new = map reminderPayload ?due"
    and names: "list_all (\<lambda>j. job_name j = ''sendReminder'' \<and> attemptsMade j = 0) ?new"
    by auto
  from payloads have len: "length ?new = length ?due"
    by (metis length_map)
  have kinds: "list_all (\<lambda>j. job_name j = ''sendReminder'' \<and> type (job_data j) = Reminder) ?new"
  proof -
    have "list_all (\<lambda>d. type d = Reminder) (map reminderPayload ?due)"
      by (simp add: list_all_iff reminderPayload_def)
    with payloads have "list_all (\<lambda>d. type d = Reminder) (map job_data ?new)" by simp
    with names show ?thesis by (auto simp: list_all_iff)
  qed
  have once: "length (filter (\<lambda>j. registrationId (job_data j) = r_id r) ?new) = 1"
    if "r \<in> set (registrations db) \<and> r_deletedAt r = None
          \<and> c \<in> set (competitions db) \<and> c_id c = r_competitionId r
          \<and> startsInWindow now la d c"
  proof -
    from that assms have "filter (\<lambda>x. r_id x = r_id r) ?due = [r]"
      by (intro due_count) auto
    then have "length (filter (\<lambda>p. registrationId p = r_id r) (map reminderPayload ?due)) = 1"
      by (simp add: filter_map comp_def reminderPayload_def)
    with payloads have "length (filter (\<lambda>p. registrationId p = r_id r) (map job_data ?new)) = 1"
      by simp
    then show ?thesis by (simp add: filter_map comp_def)
  qed
  have only: "\<exists>r c. r \<in> set (registrations db) \<and> r_deletedAt r = None
                  \<and> c \<in> set (competitions db) \<and> c_id c = r_competitionId r
                  \<and> startsInWindow now la d c \<and> job_data j = reminderPayload r"
    if "j \<in> set ?new"
  proof -
    from that have "job_data j \<in> set (map job_data ?new)" by simp
    with payloads have "job_data j \<in> set (map reminderPayload ?due)" by simp
    then obtain r where "r \<in> set ?due" "job_data j = reminderPayload r" by auto
    with due_member [of r now la d db] show ?thesis by blast
  qed
  from app len kinds once only show ?thesis by blast
qed

text \<open>
  The witness is the scenario of the spec: at \<open>now = 0\<close>, with a window of one hour
  that opens 24 hours ahead, the run finds the one competition that starts in 24
  hours and a half, with its two active registrations, and enqueues two Reminder
  tasks, one for each; the soft-deleted registration and the registration of the
  competition that starts in 72 hours get none.
\<close>

theorem sendReminders_one_per_registration_witness:
  "distinct (map c_id (competitions db_sched))
   \<and> distinct (map r_id (registrations db_sched))
   \<and> filter (startsInWindow 0 86400000 3600000) (competitions db_sched) = [comp_soon]
   \<and> activeRegistrations db_sched comp_soon = [regA, regB]
   \<and> map job_data (newJobs q0 (sendReminders 0 86400000 3600000 db_sched q0))
       = [reminderPayload regA, reminderPayload regB]
   \<and> length (newJobs q0 (sendReminders 0 86400000 3600000 db_sched q0)) = 2
   \<and> length (filter (\<lambda>j. registrationId (job_data j) = ''ra'')
        (newJobs q0 (sendReminders 0 86400000 3600000 db_sched q0))) = 1
   \<and> length (filter (\<lambda>j. registrationId (job_data j) = ''rb'')
        (newJobs q0 (sendReminders 0 86400000 3600000 db_sched q0))) = 1"
proof -
  have dc: "distinct (map c_id (competitions db_sched))"
    and dr: "distinct (map r_id (registrations db_sched))"
    by (simp_all add: scheduler_data_defs)
  have win: "filter (startsInWindow 0 86400000 3600000) (competitions db_sched) = [comp_soon]"
    by (simp add: startsInWindow_def scheduler_data_defs)
  have act: "activeRegistrations db_sched comp_soon = [regA, regB]"
    by (simp add: activeRegistrations_def scheduler_data_defs)
  have due: "dueRegistrations 0 86400000 3600000 db_sched = [regA, regB]"
    by (simp add: dueRegistrations_def win act)
  have run: "map job_data (newJobs q0 (sendReminders 0 86400000 3600000 db_sched q0))
       = [reminderPayload regA, reminderPayload regB]"
    by (simp add: sendReminders_def due newJobs_def addReminderEmail_def wq_add_def
          reminderPayload_def q0_def)
  have a: "regA \<in> set (registrations db_sched) \<and> r_deletedAt regA = None
      \<and> comp_soon \<in> set (competitions db_sched) \<and> c_id comp_soon = r_competitionId regA
      \<and> startsInWindow 0 86400000 3600000 comp_soon \<and> r_id regA = ''ra''"
    by (simp add: startsInWindow_def scheduler_data_defs)
  have b: "regB \<in> set (registrations db_sched) \<and> r_deletedAt regB = None
      \<and> comp_soon \<in> set (competitions db_sched) \<and> c_id comp_soon = r_competitionId regB
      \<and> startsInWindow 0 86400000 3600000 comp_soon \<and> r_id regB = ''rb''"
    by (simp add: startsInWindow_def scheduler_data_defs)
  from sendReminders_one_per_registration [OF dc dr, where now = 0 and la = 86400000
      and d = 3600000 and q = q0 and r = regA and c = comp_soon] a due
  have oneA: "length (newJobs q0 (sendReminders 0 86400000 3600000 db_sched q0)) = 2
      \<and> length (filter (\<lambda>j. registrationId (job_data j) = ''ra'')
        (newJobs q0 (sendReminders 0 86400000 3600000 db_sched q0))) = 1"
    by simp
  from sendReminders_one_per_registration [OF dc dr, where now = 0 and la = 86400000
      and d = 3600000 and q = q0 and r = regB and c = comp_soon] b
  have oneB: "length (filter (\<lambda>j. registrationId (job_data j) = ''rb'')
        (newJobs q0 (sendReminders 0 86400000 3600000 db_sched q0))) = 1"
    by simp
  from dc dr win act run oneA oneB show ?thesis by simp
qed

end
